theory Spec2Isabelle
  imports Complex_Main "HOL-Library.Sublist"
begin

section \<open>Arrays\<close>

text \<open>
  The notebook works on two-dimensional numpy arrays. An array is its shape
  \<open>(nrows, ncols)\<close> and its cells in row-major order; it is well formed when it
  has exactly \<open>nrows * ncols\<close> cells.
\<close>

record 'a ndarray =
  nrows :: nat
  ncols :: nat
  cells :: "'a list"

definition wf_nd :: "'a ndarray \<Rightarrow> bool" where
  "wf_nd m = (length (cells m) = nrows m * ncols m)"

definition shape :: "'a ndarray \<Rightarrow> nat \<times> nat" where
  "shape m = (nrows m, ncols m)"

definition tabulate2 :: "nat \<Rightarrow> nat \<Rightarrow> (nat \<Rightarrow> nat \<Rightarrow> 'a) \<Rightarrow> 'a ndarray" where
  "tabulate2 r c f =
     \<lparr>nrows = r, ncols = c, cells = concat (map (\<lambda>i. map (f i) [0..<c]) [0..<r])\<rparr>"

definition full :: "nat \<times> nat \<Rightarrow> 'a \<Rightarrow> 'a ndarray" where
  "full s v = \<lparr>nrows = fst s, ncols = snd s, cells = replicate (fst s * snd s) v\<rparr>"

definition get_nd :: "'a ndarray \<Rightarrow> nat \<Rightarrow> nat \<Rightarrow> 'a" where
  "get_nd m i j = cells m ! (i * ncols m + j)"

section \<open>Element arithmetic and element-wise operations\<close>

text \<open>
  The cells are floating-point numbers. The development does not fix their
  arithmetic: it is a parameter, a record of the constants and operations the
  notebook uses (the literal \<open>0.5\<close>, the cell value of \<open>np.ones\<close>, the product and
  the quotient of two cells). Dividing by zero is not an error of the element
  division: whatever value the arithmetic gives is stored in the cell.
\<close>

record 'a arith =
  f_half :: 'a
  f_one :: 'a
  f_mul :: "'a \<Rightarrow> 'a \<Rightarrow> 'a"
  f_div :: "'a \<Rightarrow> 'a \<Rightarrow> 'a"

datatype error = ValueError | ConvolveError

text \<open>
  Broadcasting of one axis: two lengths are compatible when they are equal or one
  of them is 1. A binary element-wise operation raises \<open>ValueError\<close> on
  incompatible shapes, and reads a length-1 axis at index 0.
\<close>

definition broadcast_dim :: "nat \<Rightarrow> nat \<Rightarrow> nat option" where
  "broadcast_dim a b =
     (if a = b then Some a else if a = 1 then Some b else if b = 1 then Some a else None)"

definition bget :: "'a ndarray \<Rightarrow> nat \<Rightarrow> nat \<Rightarrow> 'a" where
  "bget m i j = get_nd m (if nrows m = 1 then 0 else i) (if ncols m = 1 then 0 else j)"

definition elementwise ::
  "('a \<Rightarrow> 'a \<Rightarrow> 'a) \<Rightarrow> 'a ndarray \<Rightarrow> 'a ndarray \<Rightarrow> error + 'a ndarray" where
  "elementwise f a b =
     (case broadcast_dim (nrows a) (nrows b) of
        None \<Rightarrow> Inl ValueError
      | Some r \<Rightarrow>
          (case broadcast_dim (ncols a) (ncols b) of
             None \<Rightarrow> Inl ValueError
           | Some c \<Rightarrow> Inr (tabulate2 r c (\<lambda>i j. f (bget a i j) (bget b i j)))))"

text \<open>\<open>a / b\<close> on arrays.\<close>

definition divide_nd :: "'a arith \<Rightarrow> 'a ndarray \<Rightarrow> 'a ndarray \<Rightarrow> error + 'a ndarray" where
  "divide_nd A a b = elementwise (f_div A) a b"

text \<open>
  \<open>x *= y\<close> on arrays: the product is written back into \<open>x\<close>, so the broadcast
  shape has to be the shape of \<open>x\<close>; otherwise numpy raises \<open>ValueError\<close>.
\<close>

definition imul_nd :: "'a arith \<Rightarrow> 'a ndarray \<Rightarrow> 'a ndarray \<Rightarrow> error + 'a ndarray" where
  "imul_nd A x y =
     (case elementwise (f_mul A) x y of
        Inl e \<Rightarrow> Inl e
      | Inr z \<Rightarrow> if shape z = shape x then Inr z else Inl ValueError)"

text \<open>\<open>np.ones(shape)\<close> and the product of a scalar with an array.\<close>

definition np_ones :: "'a arith \<Rightarrow> nat \<times> nat \<Rightarrow> 'a ndarray" where
  "np_ones A s = full s (f_one A)"

definition scalar_mul :: "'a arith \<Rightarrow> 'a \<Rightarrow> 'a ndarray \<Rightarrow> 'a ndarray" where
  "scalar_mul A v m = m\<lparr>cells := map (f_mul A v) (cells m)\<rparr>"

text \<open>
  \<open>np.rot90(m, k)\<close> in the plane of the two axes, as numpy computes it from
  \<open>np.flip\<close> along axis 0 or axis 1 and the transpose: \<open>k\<close> is reduced modulo 4;
  two quarter turns are a flip of each axis.
\<close>

definition flip_axis0 :: "'a ndarray \<Rightarrow> 'a ndarray" where
  "flip_axis0 m = tabulate2 (nrows m) (ncols m) (\<lambda>i j. get_nd m (nrows m - 1 - i) j)"

definition flip_axis1 :: "'a ndarray \<Rightarrow> 'a ndarray" where
  "flip_axis1 m = tabulate2 (nrows m) (ncols m) (\<lambda>i j. get_nd m i (ncols m - 1 - j))"

definition transpose_nd :: "'a ndarray \<Rightarrow> 'a ndarray" where
  "transpose_nd m = tabulate2 (ncols m) (nrows m) (\<lambda>i j. get_nd m j i)"

definition rot90 :: "'a ndarray \<Rightarrow> int \<Rightarrow> 'a ndarray" where
  "rot90 m k =
     (let k' = k mod 4 in
      if k' = 0 then m
      else if k' = 2 then flip_axis1 (flip_axis0 m)
      else if k' = 1 then transpose_nd (flip_axis1 m)
      else flip_axis1 (transpose_nd m))"

section \<open>The convolution primitive\<close>

text \<open>
  \<open>convolve_fft\<close> is a function of the astropy library. It is a parameter of the
  development: a function of the values of the image and of the kernel and of the
  keyword arguments the notebook passes, which returns a new array or fails. It
  does not write to its arguments.
\<close>

datatype boundary = Boundary_None | Boundary_Fill | Boundary_Wrap

datatype nan_treatment = Nan_Interpolate | Nan_Fill

record conv_args =
  boundary :: boundary
  crop :: bool
  nan_treatment :: nan_treatment
  normalize_kernel :: bool

type_synonym 'a convolve_fft = "'a ndarray \<Rightarrow> 'a ndarray \<Rightarrow> conv_args \<Rightarrow> error + 'a ndarray"

definition convolve :: "'a convolve_fft \<Rightarrow> 'a ndarray \<Rightarrow> 'a ndarray \<Rightarrow> error + 'a ndarray" where
  "convolve convolve_fft img krn =
     convolve_fft img krn
       \<lparr>boundary = Boundary_Wrap, crop = False, nan_treatment = Nan_Fill,
        normalize_kernel = False\<rparr>"

section \<open>Richardson-Lucy deconvolution\<close>

text \<open>\<open>range(n)\<close> for an integer \<open>n\<close>: empty when \<open>n \<le> 0\<close>.\<close>

definition py_range :: "int \<Rightarrow> int list" where
  "py_range n = map int [0..<nat n]"

text \<open>
  One pass of the loop body
  \<open>x_hat *= convolve(image / convolve(x_hat, psf), psf_rot)\<close>:
  the inner convolution, the quotient, the outer convolution and the in-place
  product, in this order; the first failure ends the pass.
\<close>

definition rl_body ::
  "'a arith \<Rightarrow> 'a convolve_fft \<Rightarrow> 'a ndarray \<Rightarrow> 'a ndarray \<Rightarrow> 'a ndarray \<Rightarrow> 'a ndarray
     \<Rightarrow> error + 'a ndarray" where
  "rl_body A cfft img psf psf_rot x_hat =
     (case convolve cfft x_hat psf of
        Inl e \<Rightarrow> Inl e
      | Inr blurred \<Rightarrow>
          (case divide_nd A img blurred of
             Inl e \<Rightarrow> Inl e
           | Inr ratio \<Rightarrow>
               (case convolve cfft ratio psf_rot of
                  Inl e \<Rightarrow> Inl e
                | Inr correction \<Rightarrow> imul_nd A x_hat correction)))"

fun rl_loop ::
  "'a arith \<Rightarrow> 'a convolve_fft \<Rightarrow> 'a ndarray \<Rightarrow> 'a ndarray \<Rightarrow> 'a ndarray \<Rightarrow> int list
     \<Rightarrow> 'a ndarray \<Rightarrow> error + 'a ndarray" where
  "rl_loop A cfft img psf psf_rot [] x_hat = Inr x_hat"
| "rl_loop A cfft img psf psf_rot (i # is) x_hat =
     (case rl_body A cfft img psf psf_rot x_hat of
        Inl e \<Rightarrow> Inl e
      | Inr x_hat' \<Rightarrow> rl_loop A cfft img psf psf_rot is x_hat')"

text \<open>
  \<open>RL_Deconvolve(image, psf, n_iter=30)\<close>. The iteration count is a Python
  integer; the two arrays are values here, and references in the next section.
\<close>

definition RL_Deconvolve ::
  "'a arith \<Rightarrow> 'a convolve_fft \<Rightarrow> 'a ndarray \<Rightarrow> 'a ndarray \<Rightarrow> int \<Rightarrow> error + 'a ndarray" where
  "RL_Deconvolve A cfft img psf n_iter =
     (let x_hat = scalar_mul A (f_half A) (np_ones A (shape img));
          psf_rot = rot90 psf 2
      in rl_loop A cfft img psf psf_rot (py_range n_iter) x_hat)"

section \<open>The same function on arrays in memory\<close>

text \<open>
  In Python the arrays are objects: \<open>image\<close> and \<open>psf\<close> refer to the caller's
  arrays, \<open>np.rot90\<close> returns a view that shares the buffer of its argument, and
  \<open>x_hat *= ...\<close> overwrites the buffer of \<open>x_hat\<close>. The machine state holds the
  buffers by address and the next free address. A reference is a buffer, or a
  rotated view of another reference. The state also records, in order, the calls
  of \<open>np.rot90\<close> and of \<open>convolve\<close> with the values of their arguments; nothing
  reads this record.
\<close>

datatype aref = Owned nat | Rot90_view aref int

datatype 'a call = Rot90_call "'a ndarray" int | Convolve_call "'a ndarray" "'a ndarray"

record 'a machine =
  store :: "nat \<Rightarrow> 'a ndarray"
  next_free :: nat
  calls :: "'a call list"

fun deref :: "'a machine \<Rightarrow> aref \<Rightarrow> 'a ndarray" where
  "deref st (Owned p) = store st p"
| "deref st (Rot90_view r k) = rot90 (deref st r) k"

fun base_of :: "aref \<Rightarrow> nat" where
  "base_of (Owned p) = p"
| "base_of (Rot90_view r k) = base_of r"

definition alloc :: "'a ndarray \<Rightarrow> 'a machine \<Rightarrow> nat \<times> 'a machine" where
  "alloc m st =
     (next_free st,
      st\<lparr>store := (store st)(next_free st := m), next_free := Suc (next_free st)\<rparr>)"

definition np_rot90 :: "aref \<Rightarrow> int \<Rightarrow> 'a machine \<Rightarrow> aref \<times> 'a machine" where
  "np_rot90 r k st = (Rot90_view r k, st\<lparr>calls := calls st @ [Rot90_call (deref st r) k]\<rparr>)"

definition convolve_st ::
  "'a convolve_fft \<Rightarrow> 'a ndarray \<Rightarrow> 'a ndarray \<Rightarrow> 'a machine
     \<Rightarrow> (error + 'a ndarray) \<times> 'a machine" where
  "convolve_st cfft img krn st =
     (convolve cfft img krn, st\<lparr>calls := calls st @ [Convolve_call img krn]\<rparr>)"

text \<open>
  The loop body on the state: the quotient and the two convolutions are fresh
  temporaries, the product is stored in the buffer of \<open>x_hat\<close>. After a failure
  the state is the one reached so far.
\<close>

definition rl_body_st ::
  "'a arith \<Rightarrow> 'a convolve_fft \<Rightarrow> aref \<Rightarrow> aref \<Rightarrow> aref \<Rightarrow> nat \<Rightarrow> 'a machine
     \<Rightarrow> (error + unit) \<times> 'a machine" where
  "rl_body_st A cfft img psf psf_rot x_hat st =
     (case convolve_st cfft (store st x_hat) (deref st psf) st of
        (Inl e, st1) \<Rightarrow> (Inl e, st1)
      | (Inr blurred, st1) \<Rightarrow>
          (case divide_nd A (deref st1 img) blurred of
             Inl e \<Rightarrow> (Inl e, st1)
           | Inr ratio \<Rightarrow>
               (case convolve_st cfft ratio (deref st1 psf_rot) st1 of
                  (Inl e, st2) \<Rightarrow> (Inl e, st2)
                | (Inr correction, st2) \<Rightarrow>
                    (case imul_nd A (store st2 x_hat) correction of
                       Inl e \<Rightarrow> (Inl e, st2)
                     | Inr z \<Rightarrow> (Inr (), st2\<lparr>store := (store st2)(x_hat := z)\<rparr>)))))"

fun rl_loop_st ::
  "'a arith \<Rightarrow> 'a convolve_fft \<Rightarrow> aref \<Rightarrow> aref \<Rightarrow> aref \<Rightarrow> nat \<Rightarrow> int list \<Rightarrow> 'a machine
     \<Rightarrow> (error + unit) \<times> 'a machine" where
  "rl_loop_st A cfft img psf psf_rot x_hat [] st = (Inr (), st)"
| "rl_loop_st A cfft img psf psf_rot x_hat (i # is) st =
     (case rl_body_st A cfft img psf psf_rot x_hat st of
        (Inl e, st') \<Rightarrow> (Inl e, st')
      | (Inr u, st') \<Rightarrow> rl_loop_st A cfft img psf psf_rot x_hat is st')"

definition RL_Deconvolve_st ::
  "'a arith \<Rightarrow> 'a convolve_fft \<Rightarrow> aref \<Rightarrow> aref \<Rightarrow> int \<Rightarrow> 'a machine
     \<Rightarrow> (error + aref) \<times> 'a machine" where
  "RL_Deconvolve_st A cfft img psf n_iter st =
     (case alloc (scalar_mul A (f_half A) (np_ones A (shape (deref st img)))) st of
        (x_hat, st1) \<Rightarrow>
          (case np_rot90 psf 2 st1 of
             (psf_rot, st2) \<Rightarrow>
               (case rl_loop_st A cfft img psf psf_rot x_hat (py_range n_iter) st2 of
                  (Inl e, st3) \<Rightarrow> (Inl e, st3)
                | (Inr u, st3) \<Rightarrow> (Inr (Owned x_hat), st3))))"

text \<open>Reading the record of calls.\<close>

fun is_rot90_call :: "'a call \<Rightarrow> bool" where
  "is_rot90_call (Rot90_call m k) = True"
| "is_rot90_call (Convolve_call a k) = False"

fun kernels_of :: "'a call list \<Rightarrow> 'a ndarray list" where
  "kernels_of [] = []"
| "kernels_of (Rot90_call m k # cs) = kernels_of cs"
| "kernels_of (Convolve_call a k # cs) = k # kernels_of cs"

section \<open>The update rule of the specification\<close>

text \<open>
  The specification describes the result as the \<open>n\<close>-fold application of one
  update to the uniform estimate 0.5: the estimate is multiplied in place by the
  convolution, with the kernel flipped along both axes, of the quotient of the
  observed image by the convolution of the estimate with the kernel. Both
  convolutions wrap around, do not crop, fill NaNs and do not renormalise the
  kernel.
\<close>

definition then_err :: "error + 'a \<Rightarrow> ('a \<Rightarrow> error + 'b) \<Rightarrow> error + 'b" where
  "then_err r f = (case r of Inl e \<Rightarrow> Inl e | Inr x \<Rightarrow> f x)"

definition kernel_flipped :: "'a ndarray \<Rightarrow> 'a ndarray" where
  "kernel_flipped krn =
     tabulate2 (nrows krn) (ncols krn)
       (\<lambda>i j. get_nd krn (nrows krn - 1 - i) (ncols krn - 1 - j))"

definition spec_conv :: "'a convolve_fft \<Rightarrow> 'a ndarray \<Rightarrow> 'a ndarray \<Rightarrow> error + 'a ndarray" where
  "spec_conv cfft a krn =
     cfft a krn \<lparr>boundary = Boundary_Wrap, crop = False, nan_treatment = Nan_Fill,
       normalize_kernel = False\<rparr>"

definition spec_update ::
  "'a arith \<Rightarrow> 'a convolve_fft \<Rightarrow> 'a ndarray \<Rightarrow> 'a ndarray \<Rightarrow> 'a ndarray \<Rightarrow> error + 'a ndarray" where
  "spec_update A cfft observed krn estimate =
     then_err (spec_conv cfft estimate krn) (\<lambda>blurred_estimate.
     then_err (elementwise (f_div A) observed blurred_estimate) (\<lambda>ratio.
     then_err (spec_conv cfft ratio (kernel_flipped krn)) (\<lambda>correction.
     imul_nd A estimate correction)))"

definition spec_deconvolve ::
  "'a arith \<Rightarrow> 'a convolve_fft \<Rightarrow> 'a ndarray \<Rightarrow> 'a ndarray \<Rightarrow> nat \<Rightarrow> error + 'a ndarray" where
  "spec_deconvolve A cfft observed krn n =
     ((\<lambda>r. then_err r (spec_update A cfft observed krn)) ^^ n)
       (Inr (full (shape observed) (f_half A)))"

text \<open>The array with a function applied to every cell.\<close>

definition map_cells :: "('a \<Rightarrow> 'a) \<Rightarrow> 'a ndarray \<Rightarrow> 'a ndarray" where
  "map_cells g m = m\<lparr>cells := map g (cells m)\<rparr>"

section \<open>Exact arithmetic and wrap-around convolution\<close>

text \<open>
  Where a claim is about the values in the cells, the arithmetic is instantiated
  with the special values of IEEE 754 over exact rationals: a cell is a rational
  number, an infinity or NaN; finite values are not rounded, do not overflow, and
  there is one zero. Division by zero is not an error: it gives an infinity, or
  NaN for \<open>0 / 0\<close>. On inputs whose intermediate values are all exactly
  representable (small dyadic rationals), binary64 computes the same cells.
\<close>

datatype xfloat = Fin rat | PInf | NInf | NaN

fun xmul :: "xfloat \<Rightarrow> xfloat \<Rightarrow> xfloat" where
  "xmul (Fin a) (Fin b) = Fin (a * b)"
| "xmul NaN y = NaN"
| "xmul x NaN = NaN"
| "xmul (Fin a) PInf = (if a = 0 then NaN else if 0 < a then PInf else NInf)"
| "xmul (Fin a) NInf = (if a = 0 then NaN else if 0 < a then NInf else PInf)"
| "xmul PInf (Fin b) = (if b = 0 then NaN else if 0 < b then PInf else NInf)"
| "xmul NInf (Fin b) = (if b = 0 then NaN else if 0 < b then NInf else PInf)"
| "xmul PInf PInf = PInf"
| "xmul PInf NInf = NInf"
| "xmul NInf PInf = NInf"
| "xmul NInf NInf = PInf"

fun xdiv :: "xfloat \<Rightarrow> xfloat \<Rightarrow> xfloat" where
  "xdiv (Fin a) (Fin b) =
     (if b = 0 then (if a = 0 then NaN else if 0 < a then PInf else NInf) else Fin (a / b))"
| "xdiv NaN y = NaN"
| "xdiv x NaN = NaN"
| "xdiv (Fin a) PInf = Fin 0"
| "xdiv (Fin a) NInf = Fin 0"
| "xdiv PInf (Fin b) = (if 0 \<le> b then PInf else NInf)"
| "xdiv NInf (Fin b) = (if 0 \<le> b then NInf else PInf)"
| "xdiv PInf PInf = NaN"
| "xdiv PInf NInf = NaN"
| "xdiv NInf PInf = NaN"
| "xdiv NInf NInf = NaN"

fun xadd :: "xfloat \<Rightarrow> xfloat \<Rightarrow> xfloat" where
  "xadd (Fin a) (Fin b) = Fin (a + b)"
| "xadd NaN y = NaN"
| "xadd x NaN = NaN"
| "xadd (Fin a) PInf = PInf"
| "xadd (Fin a) NInf = NInf"
| "xadd PInf (Fin b) = PInf"
| "xadd NInf (Fin b) = NInf"
| "xadd PInf PInf = PInf"
| "xadd PInf NInf = NaN"
| "xadd NInf PInf = NaN"
| "xadd NInf NInf = NInf"

definition xarith :: "xfloat arith" where
  "xarith = \<lparr>f_half = Fin (1 / 2), f_one = Fin 1, f_mul = xmul, f_div = xdiv\<rparr>"

text \<open>
  Modelled from the spec: the NaN fill of \<open>convolve_fft\<close>, which is astropy's and
  not part of the repository. Section 4.1 of the specification has NaNs replaced
  with a fill value before convolving; the fill value is 0.
\<close>

definition nan_fill :: "xfloat \<Rightarrow> xfloat" where
  "nan_fill v = (if v = NaN then Fin 0 else v)"

text \<open>
  Modelled from the spec: \<open>convolve_fft\<close>, which is astropy's and not part of the
  repository, under the keyword arguments of the notebook. Section 4.1 of the
  specification describes it as the linear shift-invariant convolution with
  periodic boundary, not cropped, NaNs filled first, the kernel not renormalised;
  section 7 makes a shape mismatch between image and kernel an error of the
  primitive. The origin of the kernel is its centre cell
  \<open>(nrows div 2, ncols div 2)\<close>, where the identity kernel of section 8 has its
  1; for an even length this is the index that \<open>np.fft.ifftshift\<close> moves to 0.
  Cell \<open>(i, j)\<close> of the result is the sum over the kernel cells \<open>(p, q)\<close> of the
  image cell \<open>(i - (p - nrows div 2), j - (q - ncols div 2))\<close>, indices taken
  modulo the shape, times the kernel cell.
\<close>

definition wrap_convolve :: "xfloat ndarray \<Rightarrow> xfloat ndarray \<Rightarrow> error + xfloat ndarray" where
  "wrap_convolve img krn =
     (if shape img \<noteq> shape krn then Inl ConvolveError
      else
        let r = nrows img; c = ncols img in
        Inr (tabulate2 r c (\<lambda>i j.
          foldl xadd (Fin 0)
            (concat (map (\<lambda>p. map (\<lambda>q.
               xmul (nan_fill (get_nd img ((i + r div 2 + r - p) mod r) ((j + c div 2 + c - q) mod c)))
                    (get_nd krn p q)) [0..<c]) [0..<r])))))"

text \<open>
  Modelled from the spec: the primitive as a function of the keyword arguments
  too; it is described for the arguments the notebook passes only.
\<close>

definition xconvolve_fft :: "xfloat convolve_fft" where
  "xconvolve_fft img krn args = wrap_convolve img krn"







section \<open>Lemmas\<close>

subsection \<open>Tabulated arrays and element-wise operations\<close>

lemma nrows_tabulate2 [simp]: "nrows (tabulate2 r c f) = r"
  by (simp add: tabulate2_def)

lemma ncols_tabulate2 [simp]: "ncols (tabulate2 r c f) = c"
  by (simp add: tabulate2_def)

lemma concat_rows_upt:
  "concat (map (\<lambda>i. map (\<lambda>j. g (i * c + j)) [0..<c]) [0..<r]) = map g [0..<r * c]"
proof (induction r)
  case 0
  show ?case by simp
next
  case (Suc r)
  have "map (\<lambda>j. g (r * c + j)) [0..<c] = map g (map (\<lambda>j. j + r * c) [0..<c])"
    by (simp add: add.commute)
  also have "\<dots> = map g [r * c..<r * c + c]"
    by (simp add: map_add_upt add.commute)
  finally have row: "map (\<lambda>j. g (r * c + j)) [0..<c] = map g [r * c..<r * c + c]" .
  have "[0..<Suc r * c] = [0..<r * c + c]"
    by (simp add: add.commute)
  also have "\<dots> = [0..<r * c] @ [r * c..<r * c + c]"
    by (rule upt_add_eq_append) simp
  finally have split: "[0..<Suc r * c] = [0..<r * c] @ [r * c..<r * c + c]" .
  have "concat (map (\<lambda>i. map (\<lambda>j. g (i * c + j)) [0..<c]) [0..<Suc r])
      = map g [0..<r * c] @ map g [r * c..<r * c + c]"
    using Suc row by simp
  also have "\<dots> = map g [0..<Suc r * c]"
    by (simp only: split map_append)
  finally show ?case .
qed

lemma cells_tabulate2:
  "cells (tabulate2 r c f) = map (\<lambda>k. f (k div c) (k mod c)) [0..<r * c]"
proof -
  have "concat (map (\<lambda>i. map (f i) [0..<c]) [0..<r])
      = concat (map (\<lambda>i. map (\<lambda>j. f ((i * c + j) div c) ((i * c + j) mod c)) [0..<c]) [0..<r])"
    by (rule arg_cong [where f = concat], rule map_cong [OF refl], rule map_cong [OF refl]) simp
  also have "\<dots> = map (\<lambda>k. f (k div c) (k mod c)) [0..<r * c]"
    by (rule concat_rows_upt)
  finally show ?thesis by (simp add: tabulate2_def)
qed

lemma length_cells_tabulate2 [simp]: "length (cells (tabulate2 r c f)) = r * c"
  by (simp add: cells_tabulate2)

lemma wf_tabulate2 [simp]: "wf_nd (tabulate2 r c f)"
  by (simp add: wf_nd_def)

lemma get_tabulate2: "i < r \<Longrightarrow> j < c \<Longrightarrow> get_nd (tabulate2 r c f) i j = f i j"
proof -
  assume i: "i < r" and j: "j < c"
  have "i * c + j < r * c"
  proof -
    have "i * c + j < i * c + c" using j by simp
    also have "\<dots> = Suc i * c" by simp
    also have "\<dots> \<le> r * c" using i by (intro mult_le_mono1) simp
    finally show ?thesis .
  qed
  then show ?thesis using j by (simp add: get_nd_def cells_tabulate2)
qed

lemma tabulate2_cong:
  "(\<And>i j. i < r \<Longrightarrow> j < c \<Longrightarrow> f i j = g i j) \<Longrightarrow> tabulate2 r c f = tabulate2 r c g"
proof -
  assume eq: "\<And>i j. i < r \<Longrightarrow> j < c \<Longrightarrow> f i j = g i j"
  have "map (\<lambda>i. map (f i) [0..<c]) [0..<r] = map (\<lambda>i. map (g i) [0..<c]) [0..<r]"
    by (rule map_cong [OF refl], rule map_cong [OF refl]) (simp add: eq)
  then show ?thesis by (simp only: tabulate2_def)
qed






lemma imul_nd_shape: "imul_nd A x y = Inr z \<Longrightarrow> shape z = shape x"
  by (auto simp: imul_nd_def split: sum.splits if_splits)

lemma initial_estimate:
  "f_mul A (f_half A) (f_one A) = f_half A \<Longrightarrow>
     scalar_mul A (f_half A) (np_ones A s) = full s (f_half A)"
  by (simp add: scalar_mul_def np_ones_def full_def)

lemma shape_initial_estimate [simp]:
  "shape (scalar_mul A v (np_ones A s)) = s"
  by (simp add: scalar_mul_def np_ones_def full_def shape_def)

lemma rot90_two: "rot90 m 2 = kernel_flipped m"
proof -
  have "flip_axis1 (flip_axis0 m)
      = tabulate2 (nrows m) (ncols m)
          (\<lambda>i j. get_nd (tabulate2 (nrows m) (ncols m) (\<lambda>i j. get_nd m (nrows m - 1 - i) j))
             i (ncols m - 1 - j))"
    by (simp add: flip_axis0_def flip_axis1_def)
  also have "\<dots> = kernel_flipped m"
    unfolding kernel_flipped_def by (rule tabulate2_cong) (simp add: get_tabulate2)
  finally show ?thesis by (simp add: rot90_def)
qed

subsection \<open>The loop\<close>

lemma then_err_simps [simp]:
  "then_err (Inl e) f = Inl e" "then_err (Inr x) f = f x"
  by (simp_all add: then_err_def)

lemma funpow_then_err_Inl:
  fixes f :: "'a \<Rightarrow> error + 'a"
  shows "((\<lambda>r. then_err r f) ^^ n) (Inl e) = Inl e"
  by (induction n) simp_all

lemma funpow_then_err_Inr:
  fixes f :: "'a \<Rightarrow> error + 'a"
  shows "((\<lambda>r. then_err r f) ^^ Suc n) (Inr x) = ((\<lambda>r. then_err r f) ^^ n) (f x)"
  unfolding funpow_Suc_right o_apply by simp

lemma rl_body_spec_update:
  "rl_body A cfft img psf (kernel_flipped psf) = spec_update A cfft img psf"
  by (rule ext) (simp add: rl_body_def spec_update_def convolve_def spec_conv_def divide_nd_def
      then_err_def split: sum.splits)

lemma rl_loop_funpow:
  "rl_loop A cfft img psf psf_rot is x =
     ((\<lambda>r. then_err r (rl_body A cfft img psf psf_rot)) ^^ length is) (Inr x)"
proof (induction "is" arbitrary: x)
  case Nil
  show ?case by simp
next
  case (Cons i "is")
  show ?case
  proof (cases "rl_body A cfft img psf psf_rot x")
    case (Inl e)
    then show ?thesis
      by (simp add: funpow_then_err_Inr funpow_then_err_Inl del: funpow.simps)
  next
    case (Inr x')
    then show ?thesis
      by (simp add: funpow_then_err_Inr Cons.IH del: funpow.simps)
  qed
qed

lemma length_py_range [simp]: "length (py_range n) = nat n"
  by (simp add: py_range_def)

lemma py_range_nonpos: "n \<le> 0 \<Longrightarrow> py_range n = []"
  by (simp add: py_range_def)

lemma rl_body_shape: "rl_body A cfft img psf psf_rot x = Inr x' \<Longrightarrow> shape x' = shape x"
  by (auto simp: rl_body_def split: sum.splits dest: imul_nd_shape)

lemma rl_loop_shape:
  "rl_loop A cfft img psf psf_rot is x = Inr x' \<Longrightarrow> shape x' = shape x"
proof (induction "is" arbitrary: x)
  case Nil
  then show ?case by simp
next
  case (Cons i "is")
  then show ?case
    by (auto split: sum.splits dest: rl_body_shape)
qed

lemma RL_Deconvolve_result_shape:
  "RL_Deconvolve A cfft img psf n = Inr r \<Longrightarrow> shape r = shape img"
  by (auto simp: RL_Deconvolve_def Let_def dest: rl_loop_shape)

lemma shape_kernel_flipped [simp]: "shape (kernel_flipped k) = shape k"
  by (simp add: kernel_flipped_def shape_def)

lemma elementwise_defined:
  "shape a = shape b \<Longrightarrow> \<exists>z. elementwise f a b = Inr z \<and> shape z = shape a"
  by (simp add: elementwise_def broadcast_dim_def shape_def)

lemma rl_body_defined:
  assumes prim: "\<forall>a k. shape a = s \<and> shape k = s \<longrightarrow> (\<exists>b. convolve cfft a k = Inr b \<and> shape b = s)"
    and "shape img = s" "shape psf = s" "shape psf_rot = s" "shape x = s"
  shows "\<exists>x'. rl_body A cfft img psf psf_rot x = Inr x' \<and> shape x' = s"
proof -
  from prim assms obtain blurred where b: "convolve cfft x psf = Inr blurred" "shape blurred = s"
    by blast
  from elementwise_defined [of img blurred "f_div A"] assms b
  obtain ratio where r: "divide_nd A img blurred = Inr ratio" "shape ratio = s"
    by (auto simp: divide_nd_def)
  from prim assms r obtain correction
    where c: "convolve cfft ratio psf_rot = Inr correction" "shape correction = s"
    by blast
  from elementwise_defined [of x correction "f_mul A"] assms c
  obtain z where z: "elementwise (f_mul A) x correction = Inr z" "shape z = s"
    by auto
  then have "imul_nd A x correction = Inr z"
    using assms by (simp add: imul_nd_def)
  with b r c z show ?thesis by (simp add: rl_body_def)
qed

lemma rl_loop_defined:
  assumes prim: "\<forall>a k. shape a = s \<and> shape k = s \<longrightarrow> (\<exists>b. convolve cfft a k = Inr b \<and> shape b = s)"
    and "shape img = s" "shape psf = s" "shape psf_rot = s"
  shows "shape x = s \<Longrightarrow> \<exists>x'. rl_loop A cfft img psf psf_rot is x = Inr x' \<and> shape x' = s"
proof (induction "is" arbitrary: x)
  case Nil
  then show ?case by simp
next
  case (Cons i "is")
  from rl_body_defined [OF prim assms(2-4) Cons.prems, of A]
  obtain x' where "rl_body A cfft img psf psf_rot x = Inr x'" "shape x' = s" by blast
  with Cons.IH [of x'] show ?case by simp
qed




subsection \<open>Arrays mapped cell by cell\<close>






lemma shape_map_cells [simp]: "shape (map_cells g m) = shape m"
  by (simp add: map_cells_def shape_def)

lemma wf_map_cells [simp]: "wf_nd (map_cells g m) = wf_nd m"
  by (simp add: map_cells_def wf_nd_def)

lemma cells_map_cells [simp]: "cells (map_cells g m) = map g (cells m)"
  by (simp add: map_cells_def)








lemma map_cells_cong:
  "(\<And>v. v \<in> set (cells m) \<Longrightarrow> f v = g v) \<Longrightarrow> map_cells f m = map_cells g m"
  by (simp add: map_cells_def cong: map_cong)





subsection \<open>The function on arrays in memory\<close>

lemma kernels_of_append [simp]: "kernels_of (cs @ ds) = kernels_of cs @ kernels_of ds"
  by (induction cs rule: kernels_of.induct) simp_all

lemma deref_store_cong:
  "store st' (base_of r) = store st (base_of r) \<Longrightarrow> deref st' r = deref st r"
  by (induction r) simp_all

lemma deref_calls_update [simp]: "deref (st\<lparr>calls := cs\<rparr>) r = deref st r"
  by (rule deref_store_cong) simp

text \<open>One pass: what it returns, what it writes and what it logs.\<close>

lemma rl_body_st_result:
  assumes "rl_body_st A cfft img psf psf_rot x st = (res, st')"
  shows "case rl_body A cfft (deref st img) (deref st psf) (deref st psf_rot) (store st x) of
           Inl e \<Rightarrow> res = Inl e \<and> store st' = store st
         | Inr z \<Rightarrow> res = Inr () \<and> store st' = (store st)(x := z)"
  using assms
  by (auto simp: rl_body_st_def rl_body_def convolve_st_def split: sum.splits)

lemma rl_body_st_frame:
  assumes "rl_body_st A cfft img psf psf_rot x st = (res, st')"
  shows "next_free st' = next_free st" and "p \<noteq> x \<Longrightarrow> store st' p = store st p"
  using assms
  by (auto simp: rl_body_st_def convolve_st_def split: sum.splits)

lemma rl_body_st_calls:
  assumes "rl_body_st A cfft img psf psf_rot x st = (res, st')"
  shows "\<exists>cs. calls st' = calls st @ cs \<and> \<not> list_ex is_rot90_call cs \<and>
           prefix (kernels_of cs) [deref st psf, deref st psf_rot] \<and>
           (res = Inr () \<longrightarrow> kernels_of cs = [deref st psf, deref st psf_rot])"
  using assms
  by (auto simp: rl_body_st_def convolve_st_def split: sum.splits)

lemma rl_loop_st_frame:
  "rl_loop_st A cfft img psf psf_rot x is st = (res, st') \<Longrightarrow>
     next_free st' = next_free st \<and> (\<forall>p. p \<noteq> x \<longrightarrow> store st' p = store st p)"
proof (induction "is" arbitrary: st)
  case Nil
  then show ?case by simp
next
  case (Cons i "is")
  obtain r1 st1 where b: "rl_body_st A cfft img psf psf_rot x st = (r1, st1)"
    by (cases "rl_body_st A cfft img psf psf_rot x st")
  note f = rl_body_st_frame [OF b]
  show ?case
  proof (cases r1)
    case (Inl e)
    with Cons.prems b f show ?thesis by auto
  next
    case (Inr u)
    with Cons.prems b have "rl_loop_st A cfft img psf psf_rot x is st1 = (res, st')" by simp
    from Cons.IH [OF this] f show ?thesis by auto
  qed
qed

lemma rl_loop_st_result:
  assumes "base_of img \<noteq> x" and "base_of psf \<noteq> x" and "base_of psf_rot \<noteq> x"
  shows "rl_loop_st A cfft img psf psf_rot x is st = (res, st') \<Longrightarrow>
     (case rl_loop A cfft (deref st img) (deref st psf) (deref st psf_rot) is (store st x) of
        Inl e \<Rightarrow> res = Inl e
      | Inr z \<Rightarrow> res = Inr () \<and> store st' x = z)"
proof (induction "is" arbitrary: st)
  case Nil
  then show ?case by auto
next
  case (Cons i "is")
  obtain r1 st1 where b: "rl_body_st A cfft img psf psf_rot x st = (r1, st1)"
    by (cases "rl_body_st A cfft img psf psf_rot x st")
  note r = rl_body_st_result [OF b]
  show ?case
  proof (cases "rl_body A cfft (deref st img) (deref st psf) (deref st psf_rot) (store st x)")
    case (Inl e)
    with r b Cons.prems show ?thesis by auto
  next
    case (Inr z)
    with r have r1: "r1 = Inr ()" and st1: "store st1 = (store st)(x := z)" by auto
    from st1 assms have d: "deref st1 img = deref st img" "deref st1 psf = deref st psf"
      "deref st1 psf_rot = deref st psf_rot"
      by (auto intro: deref_store_cong)
    from Cons.prems b r1 have "rl_loop_st A cfft img psf psf_rot x is st1 = (res, st')" by simp
    from Cons.IH [OF this] d st1 Inr show ?thesis by simp
  qed
qed

lemma rl_loop_st_calls:
  assumes "base_of psf \<noteq> x" and "base_of psf_rot \<noteq> x"
  shows "rl_loop_st A cfft img psf psf_rot x is st = (res, st') \<Longrightarrow>
     \<exists>cs. calls st' = calls st @ cs \<and> \<not> list_ex is_rot90_call cs \<and>
       prefix (kernels_of cs) (concat (replicate (length is) [deref st psf, deref st psf_rot])) \<and>
       (res = Inr () \<longrightarrow>
          kernels_of cs = concat (replicate (length is) [deref st psf, deref st psf_rot]))"
proof (induction "is" arbitrary: st)
  case Nil
  then show ?case by auto
next
  case (Cons i "is")
  let ?K = "deref st psf" and ?K' = "deref st psf_rot"
  let ?rest = "concat (replicate (length is) [?K, ?K'])"
  obtain r1 st1 where b: "rl_body_st A cfft img psf psf_rot x st = (r1, st1)"
    by (cases "rl_body_st A cfft img psf psf_rot x st")
  from rl_body_st_calls [OF b] obtain cs1 where cs1: "calls st1 = calls st @ cs1"
    "\<not> list_ex is_rot90_call cs1" "prefix (kernels_of cs1) [?K, ?K']"
    "r1 = Inr () \<longrightarrow> kernels_of cs1 = [?K, ?K']"
    by blast
  show ?case
  proof (cases r1)
    case (Inl e)
    with Cons.prems b have "res = Inl e" "st' = st1" by auto
    moreover have "prefix (kernels_of cs1) ([?K, ?K'] @ ?rest)"
      using cs1(3) by (rule prefix_prefix)
    ultimately show ?thesis using cs1 by auto
  next
    case (Inr u)
    with cs1 have k1: "kernels_of cs1 = [?K, ?K']" by simp
    from rl_body_st_frame(2) [OF b] assms
    have d: "deref st1 psf = ?K" "deref st1 psf_rot = ?K'"
      by (auto intro: deref_store_cong)
    from Cons.prems b Inr have "rl_loop_st A cfft img psf psf_rot x is st1 = (res, st')" by simp
    from Cons.IH [OF this] d obtain cs2 where cs2: "calls st' = calls st1 @ cs2"
      "\<not> list_ex is_rot90_call cs2" "prefix (kernels_of cs2) ?rest"
      "res = Inr () \<longrightarrow> kernels_of cs2 = ?rest"
      by auto
    have "calls st' = calls st @ (cs1 @ cs2)" using cs1 cs2 by simp
    moreover have "\<not> list_ex is_rot90_call (cs1 @ cs2)" using cs1 cs2 by simp
    moreover have "prefix (kernels_of (cs1 @ cs2)) ([?K, ?K'] @ ?rest)"
      using cs2(3) by (simp add: k1)
    moreover have "res = Inr () \<longrightarrow> kernels_of (cs1 @ cs2) = [?K, ?K'] @ ?rest"
      using cs2(4) by (simp add: k1)
    ultimately show ?thesis by (intro exI [of _ "cs1 @ cs2"]) simp
  qed
qed

text \<open>The whole call.\<close>

lemma RL_Deconvolve_st_unfold:
  assumes "RL_Deconvolve_st A cfft img psf n_iter st = (res, st')"
  shows "\<exists>r st2.
           store st2 = (store st)(next_free st :=
             scalar_mul A (f_half A) (np_ones A (shape (deref st img)))) \<and>
           next_free st2 = Suc (next_free st) \<and>
           calls st2 = calls st @ [Rot90_call (deref st2 psf) 2] \<and>
           rl_loop_st A cfft img psf (Rot90_view psf 2) (next_free st) (py_range n_iter) st2
             = (r, st') \<and>
           res = (case r of Inl e \<Rightarrow> Inl e | Inr u \<Rightarrow> Inr (Owned (next_free st)))"
proof -
  let ?x0 = "scalar_mul A (f_half A) (np_ones A (shape (deref st img)))"
  let ?st1 = "st\<lparr>store := (store st)(next_free st := ?x0), next_free := Suc (next_free st)\<rparr>"
  let ?st2 = "?st1\<lparr>calls := calls ?st1 @ [Rot90_call (deref ?st1 psf) 2]\<rparr>"
  obtain r st3 where l: "rl_loop_st A cfft img psf (Rot90_view psf 2) (next_free st)
      (py_range n_iter) ?st2 = (r, st3)"
    by (cases "rl_loop_st A cfft img psf (Rot90_view psf 2) (next_free st) (py_range n_iter) ?st2")
  with assms have "st' = st3"
    and "res = (case r of Inl e \<Rightarrow> Inl e | Inr u \<Rightarrow> Inr (Owned (next_free st)))"
    by (auto simp: RL_Deconvolve_st_def alloc_def np_rot90_def split: sum.splits)
  with l show ?thesis
    by (intro exI [of _ r] exI [of _ ?st2]) simp
qed

text \<open>
  The function on arrays in memory returns what the function on values returns:
  the same error, or a reference to the array the function on values computes.
\<close>

theorem RL_Deconvolve_st_value:
  assumes "RL_Deconvolve_st A cfft img psf n_iter st = (res, st')"
    and "base_of img < next_free st" and "base_of psf < next_free st"
  shows "RL_Deconvolve A cfft (deref st img) (deref st psf) n_iter = map_sum id (deref st') res"
proof -
  from RL_Deconvolve_st_unfold [OF assms(1)] obtain r st2 where
    st2: "store st2 = (store st)(next_free st :=
             scalar_mul A (f_half A) (np_ones A (shape (deref st img))))"
    and l: "rl_loop_st A cfft img psf (Rot90_view psf 2) (next_free st) (py_range n_iter) st2
             = (r, st')"
    and res: "res = (case r of Inl e \<Rightarrow> Inl e | Inr u \<Rightarrow> Inr (Owned (next_free st)))"
    by blast
  have fresh: "base_of img \<noteq> next_free st" "base_of psf \<noteq> next_free st"
    "base_of (Rot90_view psf 2) \<noteq> next_free st"
    using assms(2,3) by simp_all
  from st2 fresh have d: "deref st2 img = deref st img" "deref st2 psf = deref st psf"
    by (auto intro!: deref_store_cong)
  from rl_loop_st_result [OF fresh l] d st2 res show ?thesis
    by (auto simp: RL_Deconvolve_def split: sum.splits)
qed

subsection \<open>The reversed kernel\<close>



subsection \<open>Exact arithmetic\<close>

lemma xarith_half: "f_mul xarith (f_half xarith) (f_one xarith) = f_half xarith"
  by (simp add: xarith_def)














subsection \<open>Identity kernels and kernels of sum 1\<close>

lemma xarith_fields [simp]:
  "f_half xarith = Fin (1 / 2)" "f_mul xarith = xmul" "f_div xarith = xdiv"
  by (simp_all add: xarith_def)









lemma xconvolve_defined:
  "shape a = shape k \<Longrightarrow> \<exists>b. convolve xconvolve_fft a k = Inr b \<and> shape b = shape a"
  by (simp add: convolve_def xconvolve_fft_def wrap_convolve_def shape_def Let_def)




section \<open>The claims\<close>

text \<open>
  Claim C1. With an arithmetic that gives \<open>0.5 * 1 = 0.5\<close>, \<open>RL_Deconvolve\<close> with
  iteration count \<open>n\<close> returns what \<open>n\<close> applications of the update of the
  specification return from the uniform estimate 0.5 of the shape of the observed
  image: the estimate is multiplied in place by the convolution, with the kernel
  reversed along both axes, of the quotient of the observed image by the
  convolution of the estimate with the kernel; both convolutions are the
  primitive called with wrap-around boundary, no cropping, NaN fill and no kernel
  renormalisation. All \<open>n\<close> passes run unless one of them fails, and a failure is
  the result. It holds for every arithmetic and every primitive.
\<close>

theorem RL_Deconvolve_refines_spec:
  "f_mul A (f_half A) (f_one A) = f_half A \<Longrightarrow>
     RL_Deconvolve A cfft img psf (int n) = spec_deconvolve A cfft img psf n"
  by (simp add: RL_Deconvolve_def spec_deconvolve_def rl_loop_funpow rot90_two
      rl_body_spec_update initial_estimate)

theorem RL_Deconvolve_refines_spec_witness:
  "RL_Deconvolve xarith xconvolve_fft
      \<lparr>nrows = 1, ncols = 1, cells = [Fin 4]\<rparr> \<lparr>nrows = 1, ncols = 1, cells = [Fin 1]\<rparr> (int 2)
    = spec_deconvolve xarith xconvolve_fft
      \<lparr>nrows = 1, ncols = 1, cells = [Fin 4]\<rparr> \<lparr>nrows = 1, ncols = 1, cells = [Fin 1]\<rparr> 2
   \<and> spec_deconvolve xarith xconvolve_fft
      \<lparr>nrows = 1, ncols = 1, cells = [Fin 4]\<rparr> \<lparr>nrows = 1, ncols = 1, cells = [Fin 1]\<rparr> 2
    = Inr \<lparr>nrows = 1, ncols = 1, cells = [Fin 4]\<rparr>"
proof -
  have "spec_deconvolve xarith xconvolve_fft
      \<lparr>nrows = 1, ncols = 1, cells = [Fin 4]\<rparr> \<lparr>nrows = 1, ncols = 1, cells = [Fin 1]\<rparr> 2
    = Inr \<lparr>nrows = 1, ncols = 1, cells = [Fin 4]\<rparr>"
    by code_simp
  with RL_Deconvolve_refines_spec [OF xarith_half, of xconvolve_fft
      "\<lparr>nrows = 1, ncols = 1, cells = [Fin 4]\<rparr>" "\<lparr>nrows = 1, ncols = 1, cells = [Fin 1]\<rparr>" 2]
  show ?thesis by (simp only: simp_thms)
qed




text \<open>
  Claim C3. For an observed image and a kernel of one shape \<open>(H, W)\<close>, if the
  primitive, applied to arrays of that shape, returns an array of that shape, then
  for every iteration count \<open>RL_Deconvolve\<close> returns an array, and this array has
  \<open>H\<close> rows and \<open>W\<close> columns. It holds for every arithmetic.
\<close>

theorem RL_Deconvolve_shape:
  assumes "shape psf = shape img"
    and "\<forall>a k. shape a = shape img \<and> shape k = shape img \<longrightarrow>
           (\<exists>b. convolve cfft a k = Inr b \<and> shape b = shape img)"
  shows "\<exists>r. RL_Deconvolve A cfft img psf n_iter = Inr r \<and>
           nrows r = nrows img \<and> ncols r = ncols img"
proof -
  have "\<exists>r. RL_Deconvolve A cfft img psf n_iter = Inr r \<and> shape r = shape img"
    unfolding RL_Deconvolve_def Let_def
    by (rule rl_loop_defined [OF assms(2) refl assms(1)]) (simp_all add: rot90_two assms(1))
  then show ?thesis by (simp add: shape_def)
qed

theorem RL_Deconvolve_shape_witness:
  "\<exists>r. RL_Deconvolve xarith xconvolve_fft
      \<lparr>nrows = 2, ncols = 2, cells = [Fin 1, Fin 2, Fin 3, Fin 4]\<rparr>
      \<lparr>nrows = 2, ncols = 2, cells = [Fin 0, Fin 0, Fin 0, Fin 1]\<rparr> 7 = Inr r \<and>
      nrows r = 2 \<and> ncols r = 2"
proof -
  let ?img = "\<lparr>nrows = 2, ncols = 2, cells = [Fin 1, Fin 2, Fin 3, Fin (4::rat)]\<rparr>"
  let ?psf = "\<lparr>nrows = 2, ncols = 2, cells = [Fin 0, Fin 0, Fin 0, Fin (1::rat)]\<rparr>"
  have s: "shape ?psf = shape ?img" by (simp add: shape_def)
  have p: "\<forall>a k. shape a = shape ?img \<and> shape k = shape ?img \<longrightarrow>
           (\<exists>b. convolve xconvolve_fft a k = Inr b \<and> shape b = shape ?img)"
  proof (intro allI impI)
    fix a k :: "xfloat ndarray"
    assume "shape a = shape ?img \<and> shape k = shape ?img"
    with xconvolve_defined [of a k]
    show "\<exists>b. convolve xconvolve_fft a k = Inr b \<and> shape b = shape ?img" by simp
  qed
  from RL_Deconvolve_shape [OF s p, of xarith 7] show ?thesis by simp
qed




text \<open>
  Claim C5, as stated, fails: for observed \<open>[[4]]\<close> and kernel \<open>[[1]]\<close> one
  iteration returns \<open>[[4]]\<close>, and the call on this output with 0 iterations does
  not return \<open>[[4]]\<close>.
\<close>

theorem fed_back_counterexample:
  "RL_Deconvolve xarith xconvolve_fft
      \<lparr>nrows = 1, ncols = 1, cells = [Fin 4]\<rparr> \<lparr>nrows = 1, ncols = 1, cells = [Fin 1]\<rparr> 1
    = Inr \<lparr>nrows = 1, ncols = 1, cells = [Fin 4]\<rparr> \<and>
   RL_Deconvolve xarith xconvolve_fft
      \<lparr>nrows = 1, ncols = 1, cells = [Fin 4]\<rparr> \<lparr>nrows = 1, ncols = 1, cells = [Fin 1]\<rparr> 0
    \<noteq> Inr \<lparr>nrows = 1, ncols = 1, cells = [Fin 4]\<rparr>"
  by code_simp

text \<open>
  Claim C5, amended. When a call returns an array \<open>out\<close>, the call on \<open>out\<close> as
  observed image with the same kernel and 0 iterations returns the uniform array
  0.5 of the shape of the first observed image, whatever \<open>out\<close> holds; it returns
  \<open>out\<close> itself exactly when \<open>out\<close> is that uniform array.
\<close>

theorem RL_Deconvolve_fed_back:
  assumes "f_mul A (f_half A) (f_one A) = f_half A"
    and "RL_Deconvolve A cfft img psf n_iter = Inr out"
  shows "RL_Deconvolve A cfft out psf 0 = Inr (full (shape img) (f_half A)) \<and>
         (RL_Deconvolve A cfft out psf 0 = Inr out \<longleftrightarrow> out = full (shape img) (f_half A))"
proof -
  from assms(2) have "shape out = shape img"
    by (rule RL_Deconvolve_result_shape)
  then have "RL_Deconvolve A cfft out psf 0 = Inr (full (shape img) (f_half A))"
    using assms(1) by (simp add: RL_Deconvolve_def py_range_def initial_estimate)
  then show ?thesis by auto
qed

theorem RL_Deconvolve_fed_back_witness:
  "RL_Deconvolve xarith xconvolve_fft
      \<lparr>nrows = 1, ncols = 1, cells = [Fin 4]\<rparr> \<lparr>nrows = 1, ncols = 1, cells = [Fin 1]\<rparr> 1
    = Inr \<lparr>nrows = 1, ncols = 1, cells = [Fin 4]\<rparr> \<and>
   RL_Deconvolve xarith xconvolve_fft
      \<lparr>nrows = 1, ncols = 1, cells = [Fin 4]\<rparr> \<lparr>nrows = 1, ncols = 1, cells = [Fin 1]\<rparr> 0
    = Inr \<lparr>nrows = 1, ncols = 1, cells = [Fin (1 / 2)]\<rparr>"
proof -
  have r: "RL_Deconvolve xarith xconvolve_fft
      \<lparr>nrows = 1, ncols = 1, cells = [Fin 4]\<rparr> \<lparr>nrows = 1, ncols = 1, cells = [Fin 1]\<rparr> 1
    = Inr \<lparr>nrows = 1, ncols = 1, cells = [Fin 4]\<rparr>"
    by code_simp
  have "full (shape \<lparr>nrows = 1, ncols = 1, cells = [Fin (4::rat)]\<rparr>) (f_half xarith)
    = \<lparr>nrows = 1, ncols = 1, cells = [Fin (1 / 2)]\<rparr>"
    by (simp add: full_def shape_def xarith_def)
  with RL_Deconvolve_fed_back [OF xarith_half r] r show ?thesis
    by simp
qed




text \<open>
  Claim C7. With iteration count 0 the result is the array of the shape of the
  observed image with 0.5 in every cell; the primitive is not called.
\<close>

theorem RL_Deconvolve_no_iterations:
  "f_mul A (f_half A) (f_one A) = f_half A \<Longrightarrow>
     RL_Deconvolve A cfft img psf 0 =
       Inr \<lparr>nrows = nrows img, ncols = ncols img,
            cells = replicate (nrows img * ncols img) (f_half A)\<rparr>"
  by (simp add: RL_Deconvolve_def py_range_def initial_estimate full_def shape_def)

theorem RL_Deconvolve_no_iterations_witness:
  "RL_Deconvolve xarith xconvolve_fft
      \<lparr>nrows = 2, ncols = 1, cells = [Fin 4, Fin 3]\<rparr> \<lparr>nrows = 1, ncols = 1, cells = [Fin 1]\<rparr> 0
    = Inr \<lparr>nrows = 2, ncols = 1, cells = [Fin (1 / 2), Fin (1 / 2)]\<rparr>"
proof -
  have "replicate (2 * 1) (f_half xarith) = [Fin (1 / 2), Fin (1 / 2)]"
    by (simp add: xarith_def eval_nat_numeral)
  with RL_Deconvolve_no_iterations [OF xarith_half, of xconvolve_fft
      "\<lparr>nrows = 2, ncols = 1, cells = [Fin 4, Fin 3]\<rparr>" "\<lparr>nrows = 1, ncols = 1, cells = [Fin 1]\<rparr>"]
  show ?thesis by simp
qed

text \<open>
  Claim C8. In a call on arrays in memory, the calls recorded are one call of
  \<open>np.rot90\<close> on the kernel with \<open>k = 2\<close>, first, and then calls of \<open>convolve\<close>
  only. The kernels of these convolutions are, in turn, the kernel as it was at
  the call and the kernel with both axes reversed, the same two arrays in every
  pass: a prefix of \<open>n\<close> such pairs when a pass fails, and all \<open>n\<close> pairs when the
  function returns.
\<close>

theorem RL_Deconvolve_st_rotates_once:
  assumes "RL_Deconvolve_st A cfft img psf n_iter st = (res, st')"
    and "base_of psf < next_free st"
  shows "\<exists>cs. calls st' = calls st @ Rot90_call (deref st psf) 2 # cs \<and>
           \<not> list_ex is_rot90_call cs \<and>
           prefix (kernels_of cs)
             (concat (replicate (nat n_iter) [deref st psf, kernel_flipped (deref st psf)])) \<and>
           ((\<exists>r. res = Inr r) \<longrightarrow> kernels_of cs =
              concat (replicate (nat n_iter) [deref st psf, kernel_flipped (deref st psf)]))"
proof -
  from RL_Deconvolve_st_unfold [OF assms(1)] obtain r st2 where
    st2: "store st2 = (store st)(next_free st :=
             scalar_mul A (f_half A) (np_ones A (shape (deref st img))))"
    and c2: "calls st2 = calls st @ [Rot90_call (deref st2 psf) 2]"
    and l: "rl_loop_st A cfft img psf (Rot90_view psf 2) (next_free st) (py_range n_iter) st2
             = (r, st')"
    and res: "res = (case r of Inl e \<Rightarrow> Inl e | Inr u \<Rightarrow> Inr (Owned (next_free st)))"
    by blast
  from st2 assms(2) have d: "deref st2 psf = deref st psf"
    by (auto intro!: deref_store_cong)
  have fresh: "base_of psf \<noteq> next_free st" "base_of (Rot90_view psf 2) \<noteq> next_free st"
    using assms(2) by simp_all
  from rl_loop_st_calls [OF fresh l] obtain cs where
    cs: "calls st' = calls st2 @ cs" "\<not> list_ex is_rot90_call cs"
      "prefix (kernels_of cs)
         (concat (replicate (length (py_range n_iter)) [deref st2 psf, deref st2 (Rot90_view psf 2)]))"
      "r = Inr () \<longrightarrow> kernels_of cs =
         concat (replicate (length (py_range n_iter)) [deref st2 psf, deref st2 (Rot90_view psf 2)])"
    by blast
  have "(\<exists>r'. res = Inr r') \<longrightarrow> r = Inr ()"
    using res by (auto split: sum.splits)
  with cs c2 d show ?thesis
    by (intro exI [of _ cs]) (simp add: rot90_two)
qed

theorem RL_Deconvolve_st_rotates_once_witness:
  "\<exists>cs. calls (snd (RL_Deconvolve_st xarith xconvolve_fft (Owned 0) (Owned 1) 2
      \<lparr>store = (\<lambda>p. if p = 0 then \<lparr>nrows = 1, ncols = 2, cells = [Fin 4, Fin 2]\<rparr>
                         else \<lparr>nrows = 1, ncols = 2, cells = [Fin 0, Fin 1]\<rparr>),
       next_free = 2, calls = []\<rparr>))
      = Rot90_call \<lparr>nrows = 1, ncols = 2, cells = [Fin 0, Fin 1]\<rparr> 2 # cs \<and>
     \<not> list_ex is_rot90_call cs \<and>
     kernels_of cs =
       [\<lparr>nrows = 1, ncols = 2, cells = [Fin 0, Fin 1]\<rparr>,
        \<lparr>nrows = 1, ncols = 2, cells = [Fin 1, Fin 0]\<rparr>,
        \<lparr>nrows = 1, ncols = 2, cells = [Fin 0, Fin 1]\<rparr>,
        \<lparr>nrows = 1, ncols = 2, cells = [Fin 1, Fin 0]\<rparr>]"
proof -
  let ?psf = "\<lparr>nrows = 1, ncols = 2, cells = [Fin 0, Fin (1::rat)]\<rparr>"
  let ?st = "\<lparr>store = (\<lambda>p. if p = 0 then \<lparr>nrows = 1, ncols = 2, cells = [Fin (4::rat), Fin 2]\<rparr>
                         else ?psf),
       next_free = 2, calls = []\<rparr>"
  let ?run = "RL_Deconvolve_st xarith xconvolve_fft (Owned 0) (Owned 1) 2 ?st"
  have run: "?run = (fst ?run, snd ?run)" by simp
  have "fst ?run = Inr (Owned 2)" by code_simp
  then have ok: "\<exists>r. fst ?run = Inr r" by simp
  have b: "base_of (Owned 1) < next_free ?st" by simp
  have k: "kernel_flipped ?psf = \<lparr>nrows = 1, ncols = 2, cells = [Fin 1, Fin 0]\<rparr>"
    by code_simp
  have two: "\<And>xs :: xfloat ndarray list. concat (replicate (nat 2) xs) = xs @ xs"
    by (simp add: numeral_2_eq_2)
  have d: "deref ?st (Owned 1) = ?psf" by simp
  from RL_Deconvolve_st_rotates_once [OF run b] obtain cs where
    c: "calls (snd ?run) = calls ?st @ Rot90_call (deref ?st (Owned 1)) 2 # cs"
    and r: "\<not> list_ex is_rot90_call cs"
    and kk: "(\<exists>r. fst ?run = Inr r) \<longrightarrow> kernels_of cs =
      concat (replicate (nat 2) [deref ?st (Owned 1), kernel_flipped (deref ?st (Owned 1))])"
    by blast
  from kk ok have "kernels_of cs = concat (replicate (nat 2) [?psf, kernel_flipped ?psf])"
    unfolding d by blast
  then have "kernels_of cs = [?psf, \<lparr>nrows = 1, ncols = 2, cells = [Fin 1, Fin 0]\<rparr>,
      ?psf, \<lparr>nrows = 1, ncols = 2, cells = [Fin 1, Fin 0]\<rparr>]"
    by (simp only: k two append.simps)
  moreover from c have "calls (snd ?run) = Rot90_call ?psf 2 # cs"
    unfolding d by simp
  ultimately show ?thesis using r by blast
qed

text \<open>
  Claim C9. In a call on arrays in memory, whether it returns or fails, the
  observed image and the kernel read the same afterwards as before, every buffer
  other than the one allocated for the estimate is unchanged, and the array
  returned is that new buffer. Beside the buffers the state holds only the next
  free address and the record of calls, which stand for nothing a caller can
  observe in Python.
\<close>

theorem RL_Deconvolve_st_inputs_unchanged:
  assumes "RL_Deconvolve_st A cfft img psf n_iter st = (res, st')"
    and "base_of img < next_free st" and "base_of psf < next_free st"
  shows "deref st' img = deref st img \<and> deref st' psf = deref st psf \<and>
         (\<forall>p. p \<noteq> next_free st \<longrightarrow> store st' p = store st p) \<and>
         (\<forall>r. res = Inr r \<longrightarrow> r = Owned (next_free st))"
proof -
  from RL_Deconvolve_st_unfold [OF assms(1)] obtain r st2 where
    st2: "store st2 = (store st)(next_free st :=
             scalar_mul A (f_half A) (np_ones A (shape (deref st img))))"
    and l: "rl_loop_st A cfft img psf (Rot90_view psf 2) (next_free st) (py_range n_iter) st2
             = (r, st')"
    and res: "res = (case r of Inl e \<Rightarrow> Inl e | Inr u \<Rightarrow> Inr (Owned (next_free st)))"
    by blast
  from rl_loop_st_frame [OF l] st2
  have fr: "\<forall>p. p \<noteq> next_free st \<longrightarrow> store st' p = store st p" by simp
  with assms(2,3) have "deref st' img = deref st img" "deref st' psf = deref st psf"
    by (auto intro!: deref_store_cong)
  with fr res show ?thesis by (auto split: sum.splits)
qed

theorem RL_Deconvolve_st_inputs_unchanged_witness:
  "deref (snd (RL_Deconvolve_st xarith xconvolve_fft (Owned 0) (Owned 1) 2
      \<lparr>store = (\<lambda>p. if p = 0 then \<lparr>nrows = 1, ncols = 1, cells = [Fin 4]\<rparr>
                         else \<lparr>nrows = 1, ncols = 1, cells = [Fin 1]\<rparr>),
       next_free = 2, calls = []\<rparr>)) (Owned 0)
     = \<lparr>nrows = 1, ncols = 1, cells = [Fin 4]\<rparr> \<and>
   deref (snd (RL_Deconvolve_st xarith xconvolve_fft (Owned 0) (Owned 1) 2
      \<lparr>store = (\<lambda>p. if p = 0 then \<lparr>nrows = 1, ncols = 1, cells = [Fin 4]\<rparr>
                         else \<lparr>nrows = 1, ncols = 1, cells = [Fin 1]\<rparr>),
       next_free = 2, calls = []\<rparr>)) (Owned 1)
     = \<lparr>nrows = 1, ncols = 1, cells = [Fin 1]\<rparr> \<and>
   fst (RL_Deconvolve_st xarith xconvolve_fft (Owned 0) (Owned 1) 2
      \<lparr>store = (\<lambda>p. if p = 0 then \<lparr>nrows = 1, ncols = 1, cells = [Fin 4]\<rparr>
                         else \<lparr>nrows = 1, ncols = 1, cells = [Fin 1]\<rparr>),
       next_free = 2, calls = []\<rparr>) = Inr (Owned 2)"
proof -
  let ?st = "\<lparr>store = (\<lambda>p. if p = 0 then \<lparr>nrows = 1, ncols = 1, cells = [Fin (4::rat)]\<rparr>
                         else \<lparr>nrows = 1, ncols = 1, cells = [Fin 1]\<rparr>),
       next_free = 2, calls = []\<rparr>"
  let ?run = "RL_Deconvolve_st xarith xconvolve_fft (Owned 0) (Owned 1) 2 ?st"
  have run: "?run = (fst ?run, snd ?run)" by simp
  have ok: "fst ?run = Inr (Owned 2)" by code_simp
  have b: "base_of (Owned 0) < next_free ?st" "base_of (Owned 1) < next_free ?st" by simp_all
  from RL_Deconvolve_st_inputs_unchanged [OF run b] ok show ?thesis by simp
qed

text \<open>
  Claim C10. For every iteration count \<open>n \<le> 0\<close>, negative ones included, the
  function returns, without a failure and without a call of the primitive, the
  array of the shape of the observed image with 0.5 in every cell.
\<close>

theorem RL_Deconvolve_nonpositive:
  "n_iter \<le> 0 \<Longrightarrow> f_mul A (f_half A) (f_one A) = f_half A \<Longrightarrow>
     RL_Deconvolve A cfft img psf n_iter =
       Inr \<lparr>nrows = nrows img, ncols = ncols img,
            cells = replicate (nrows img * ncols img) (f_half A)\<rparr>"
  by (simp add: RL_Deconvolve_def py_range_nonpos initial_estimate full_def shape_def)

theorem RL_Deconvolve_nonpositive_witness:
  "RL_Deconvolve xarith xconvolve_fft
      \<lparr>nrows = 2, ncols = 1, cells = [Fin 4, Fin 3]\<rparr> \<lparr>nrows = 1, ncols = 1, cells = [Fin 1]\<rparr> (- 3)
    = Inr \<lparr>nrows = 2, ncols = 1, cells = [Fin (1 / 2), Fin (1 / 2)]\<rparr>"
proof -
  have "replicate (2 * 1) (f_half xarith) = [Fin (1 / 2), Fin (1 / 2)]"
    by (simp add: xarith_def eval_nat_numeral)
  moreover have "(- 3 :: int) \<le> 0" by simp
  ultimately show ?thesis
    using RL_Deconvolve_nonpositive [OF _ xarith_half, of "- 3" xconvolve_fft
      "\<lparr>nrows = 2, ncols = 1, cells = [Fin 4, Fin 3]\<rparr>" "\<lparr>nrows = 1, ncols = 1, cells = [Fin 1]\<rparr>"]
    by simp
qed

end
